theory Spec2Isabelle
  imports Complex_Main
begin

section \<open>Python values and string operations used by the agent\<close>

text \<open>
  The agent of \<^verbatim>\<open>src/main.py\<close> is a loop around three calls of a text generation
  service. Python strings are modelled as \<^typ>\<open>string\<close>, one \<^typ>\<open>char\<close> for each code
  point below 256; \<open>length\<close> counts characters as Python's \<^verbatim>\<open>len\<close> does.
\<close>

text \<open>The exceptions that can leave the functions of the module.\<close>

datatype py_error = ServiceError | JSONDecodeError | AttributeError | TypeError

text \<open>A float that \<^verbatim>\<open>json.loads\<close> may produce; only its truth value is ever used.\<close>

datatype py_float = Finite rat | PosInf | NegInf | NaN

text \<open>
  The values \<^verbatim>\<open>json.loads\<close> returns. An object is the list of the items of the Python
  dict, in insertion order.
\<close>

datatype json =
    JNull
  | JBool bool
  | JInt int
  | JFloat py_float
  | JStr string
  | JArr "json list"
  | JObj "(string \<times> json) list"

text \<open>\<^verbatim>\<open>str.isspace\<close> for one character below code point 256.\<close>

definition py_isspace :: "char \<Rightarrow> bool" where
  "py_isspace c =
     (let n = (of_char c :: nat)
      in (9 \<le> n \<and> n \<le> 13) \<or> (28 \<le> n \<and> n \<le> 32) \<or> n = 133 \<or> n = 160)"

text \<open>\<^verbatim>\<open>s.strip()\<close>: whitespace removed at both ends.\<close>

definition py_strip :: "string \<Rightarrow> string" where
  "py_strip s = rev (dropWhile py_isspace (rev (dropWhile py_isspace s)))"

text \<open>
  \<^verbatim>\<open>s.replace(old, new)\<close>: the occurrences of \<open>old\<close> are found from the left and do not
  overlap; the scan goes on after each occurrence it replaced.
\<close>

function replace_scan :: "string \<Rightarrow> string \<Rightarrow> string \<Rightarrow> string" where
  "replace_scan old new [] = []"
| "replace_scan old new (c # cs) =
     (if old \<noteq> [] \<and> take (length old) (c # cs) = old
      then new @ replace_scan old new (drop (length old) (c # cs))
      else c # replace_scan old new cs)"
  by pat_completeness auto
termination
  by (relation "measure (\<lambda>(old, new, s). length s)") auto

definition py_replace :: "string \<Rightarrow> string \<Rightarrow> string \<Rightarrow> string" where
  "py_replace s old new =
     (if old = [] then new @ concat (map (\<lambda>c. c # new) s) else replace_scan old new s)"

text \<open>\<^verbatim>\<open>d.get(key, default)\<close>; only a dict has the method.\<close>

fun py_get :: "json \<Rightarrow> string \<Rightarrow> json \<Rightarrow> py_error + json" where
  "py_get (JObj kvs) key dflt = Inr (case map_of kvs key of None \<Rightarrow> dflt | Some v \<Rightarrow> v)"
| "py_get _ key dflt = Inl AttributeError"

text \<open>The items that iterating over a value yields, as \<^verbatim>\<open>list.extend\<close> reads them.\<close>

fun py_iter :: "json \<Rightarrow> py_error + json list" where
  "py_iter (JArr xs) = Inr xs"
| "py_iter (JStr s) = Inr (map (\<lambda>c. JStr [c]) s)"
| "py_iter (JObj kvs) = Inr (map (\<lambda>kv. JStr (fst kv)) kvs)"
| "py_iter _ = Inl TypeError"

definition py_extend :: "json list \<Rightarrow> json \<Rightarrow> py_error + json list" where
  "py_extend xs v = (case py_iter v of Inl e \<Rightarrow> Inl e | Inr ys \<Rightarrow> Inr (xs @ ys))"

text \<open>The truth value of a value in \<^verbatim>\<open>if passed:\<close>.\<close>

fun truthy :: "json \<Rightarrow> bool" where
  "truthy JNull = False"
| "truthy (JBool b) = b"
| "truthy (JInt i) = (i \<noteq> 0)"
| "truthy (JFloat f) = (f \<noteq> Finite 0)"
| "truthy (JStr s) = (s \<noteq> [])"
| "truthy (JArr xs) = (xs \<noteq> [])"
| "truthy (JObj kvs) = (kvs \<noteq> [])"

section \<open>The generation service\<close>

text \<open>
  The service is scripted: each call takes the next reply of the script, which is a
  response whose text may be missing, or an exception. A call on an empty script
  fails as well. The remaining script is returned with every result, also with an
  error. The prompt records which role asks and the values its template embeds; the
  scripted service does not read it.
\<close>

datatype service_reply = Responds "string option" | Raises

type_synonym script = "service_reply list"

datatype prompt =
    PlannerPrompt string
  | ExecutorPrompt string string
  | VerifierPrompt string json json

text \<open>\<^verbatim>\<open>resp.text or ""\<close>\<close>

definition reply_text :: "string option \<Rightarrow> string" where
  "reply_text text = (case text of None \<Rightarrow> [] | Some t \<Rightarrow> t)"

fun gemini_call :: "prompt \<Rightarrow> script \<Rightarrow> (py_error + string) \<times> script" where
  "gemini_call prompt [] = (Inl ServiceError, [])"
| "gemini_call prompt (Raises # rest) = (Inl ServiceError, rest)"
| "gemini_call prompt (Responds text # rest) = (Inr (reply_text text), rest)"

section \<open>Planner, executor, verifier\<close>

definition plan :: "string \<Rightarrow> script \<Rightarrow> (py_error + string) \<times> script" where
  "plan question s =
     (case gemini_call (PlannerPrompt question) s of
        (Inl e, s') \<Rightarrow> (Inl e, s')
      | (Inr text, s') \<Rightarrow> (Inr (py_strip text), s'))"

text \<open>
  The two \<^verbatim>\<open>replace\<close> calls that executor and verifier apply to the stripped
  response before parsing.
\<close>

definition strip_fences :: "string \<Rightarrow> string" where
  "strip_fences raw = py_replace (py_replace raw ''```json'' []) ''```'' []"

text \<open>
  \<^verbatim>\<open>json.loads\<close> is the parameter \<open>loads\<close>: \<open>None\<close> stands for its
  \<^verbatim>\<open>JSONDecodeError\<close>.
\<close>

type_synonym decoder = "string \<Rightarrow> json option"

definition execute ::
  "decoder \<Rightarrow> string \<Rightarrow> string \<Rightarrow> script \<Rightarrow> (py_error + json) \<times> script" where
  "execute loads question plan_text s =
     (case gemini_call (ExecutorPrompt question plan_text) s of
        (Inl e, s') \<Rightarrow> (Inl e, s')
      | (Inr text, s') \<Rightarrow>
          (case loads (strip_fences (py_strip text)) of
             None \<Rightarrow> (Inl JSONDecodeError, s')
           | Some v \<Rightarrow> (Inr v, s')))"

definition verify_llm ::
  "decoder \<Rightarrow> string \<Rightarrow> json \<Rightarrow> script \<Rightarrow> (py_error + json) \<times> script" where
  "verify_llm loads question exec_result s =
     (case py_get exec_result ''proposed_answer'' (JStr []) of
        Inl e \<Rightarrow> (Inl e, s)
      | Inr proposed_answer \<Rightarrow>
     (case py_get exec_result ''explanation'' (JStr []) of
        Inl e \<Rightarrow> (Inl e, s)
      | Inr explanation \<Rightarrow>
     (case gemini_call (VerifierPrompt question proposed_answer explanation) s of
        (Inl e, s') \<Rightarrow> (Inl e, s')
      | (Inr text, s') \<Rightarrow>
          (case loads (strip_fences (py_strip text)) of
             None \<Rightarrow> (Inl JSONDecodeError, s')
           | Some v \<Rightarrow> (Inr v, s')))))"

text \<open>\<^verbatim>\<open>strip\<close> is a method of strings only; the slice keeps the first 250 characters.\<close>

definition summarize_short :: "json \<Rightarrow> py_error + string" where
  "summarize_short exec_result =
     (case py_get exec_result ''explanation'' (JStr []) of
        Inl e \<Rightarrow> Inl e
      | Inr (JStr expl) \<Rightarrow> Inr (take 250 (py_strip expl))
      | Inr _ \<Rightarrow> Inl AttributeError)"

section \<open>The agent loop\<close>

record attempt_metadata =
  plan_md :: "string option"
  checks :: "json list"
  retries :: int

record final_result =
  answer :: json
  status :: string
  reasoning_visible_to_user :: string
  metadata :: attempt_metadata

definition failure_sentence :: string where
  "failure_sentence = ''The agent could not find a consistent solution after verification.''"

text \<open>
  The \<^verbatim>\<open>for\<close> loop of \<^verbatim>\<open>solve\<close> over the attempts that are left; the empty list is
  the code after the loop.
\<close>

fun attempts ::
  "decoder \<Rightarrow> string \<Rightarrow> int list \<Rightarrow> attempt_metadata \<Rightarrow> script
     \<Rightarrow> (py_error + final_result) \<times> script" where
  "attempts loads question [] md s =
     (Inr \<lparr>answer = JStr [], status = ''failed'',
           reasoning_visible_to_user = failure_sentence, metadata = md\<rparr>, s)"
| "attempts loads question (attempt # rest) md s =
     (let md = md\<lparr>retries := attempt\<rparr> in
      case plan question s of
        (Inl e, s1) \<Rightarrow> (Inl e, s1)
      | (Inr plan_text, s1) \<Rightarrow>
     (let md = md\<lparr>plan_md := Some plan_text\<rparr> in
      case execute loads question plan_text s1 of
        (Inl e, s2) \<Rightarrow> (Inl e, s2)
      | (Inr exec_result, s2) \<Rightarrow>
     (case verify_llm loads question exec_result s2 of
        (Inl e, s3) \<Rightarrow> (Inl e, s3)
      | (Inr verify_result, s3) \<Rightarrow>
     (case py_get verify_result ''checks'' (JArr []) of
        Inl e \<Rightarrow> (Inl e, s3)
      | Inr cs \<Rightarrow>
     (case py_extend (checks md) cs of
        Inl e \<Rightarrow> (Inl e, s3)
      | Inr extended \<Rightarrow>
     (let md = md\<lparr>checks := extended\<rparr> in
      case py_get verify_result ''passed'' (JBool False) of
        Inl e \<Rightarrow> (Inl e, s3)
      | Inr passed \<Rightarrow>
          if truthy passed then
            (case py_get exec_result ''proposed_answer'' (JStr []) of
               Inl e \<Rightarrow> (Inl e, s3)
             | Inr proposed \<Rightarrow>
            (case summarize_short exec_result of
               Inl e \<Rightarrow> (Inl e, s3)
             | Inr short \<Rightarrow>
                 (Inr \<lparr>answer = proposed, status = ''success'',
                       reasoning_visible_to_user = short, metadata = md\<rparr>, s3)))
          else attempts loads question rest md s3))))))"

definition solve ::
  "decoder \<Rightarrow> string \<Rightarrow> int \<Rightarrow> script \<Rightarrow> (py_error + final_result) \<times> script" where
  "solve loads question max_retries s =
     attempts loads question [0..max_retries]
       \<lparr>plan_md = None, checks = [], retries = 0\<rparr> s"

section \<open>The attempts of a run\<close>

text \<open>
  What one attempt produced: the plan, the execution result and the verdict, as the
  three calls of the loop body returned them.
\<close>

record attempt_run =
  planned :: string
  executed :: json
  verified :: json

text \<open>The three calls of one attempt, in the order of the loop body.\<close>

definition stages :: "decoder \<Rightarrow> string \<Rightarrow> script \<Rightarrow> (py_error + attempt_run) \<times> script" where
  "stages loads question s =
     (case plan question s of
        (Inl e, s1) \<Rightarrow> (Inl e, s1)
      | (Inr plan_text, s1) \<Rightarrow>
     (case execute loads question plan_text s1 of
        (Inl e, s2) \<Rightarrow> (Inl e, s2)
      | (Inr exec_result, s2) \<Rightarrow>
     (case verify_llm loads question exec_result s2 of
        (Inl e, s3) \<Rightarrow> (Inl e, s3)
      | (Inr verify_result, s3) \<Rightarrow>
          (Inr \<lparr>planned = plan_text, executed = exec_result, verified = verify_result\<rparr>,
           s3))))"

text \<open>
  The rest of the loop body: the metadata after the attempt, and the result that is
  returned when the verdict is accepted.
\<close>

definition absorb ::
  "int \<Rightarrow> attempt_metadata \<Rightarrow> attempt_run
     \<Rightarrow> py_error + attempt_metadata \<times> final_result option" where
  "absorb attempt md a =
     (case py_get (verified a) ''checks'' (JArr []) of
        Inl e \<Rightarrow> Inl e
      | Inr cs \<Rightarrow>
     (case py_extend (checks md) cs of
        Inl e \<Rightarrow> Inl e
      | Inr extended \<Rightarrow>
     (let md' = md\<lparr>retries := attempt, plan_md := Some (planned a), checks := extended\<rparr> in
      case py_get (verified a) ''passed'' (JBool False) of
        Inl e \<Rightarrow> Inl e
      | Inr passed \<Rightarrow>
          if truthy passed then
            (case py_get (executed a) ''proposed_answer'' (JStr []) of
               Inl e \<Rightarrow> Inl e
             | Inr proposed \<Rightarrow>
            (case summarize_short (executed a) of
               Inl e \<Rightarrow> Inl e
             | Inr short \<Rightarrow>
                 Inr (md', Some \<lparr>answer = proposed, status = ''success'',
                                  reasoning_visible_to_user = short, metadata = md'\<rparr>)))
          else Inr (md', None))))"

text \<open>
  The loop once more, returning with the result the attempts that were executed, in
  order. The log is written only; no decision reads it.
\<close>

fun attempts_logged ::
  "decoder \<Rightarrow> string \<Rightarrow> int list \<Rightarrow> attempt_metadata \<Rightarrow> script
     \<Rightarrow> (py_error + final_result \<times> attempt_run list) \<times> script" where
  "attempts_logged loads question [] md s =
     (Inr (\<lparr>answer = JStr [], status = ''failed'',
            reasoning_visible_to_user = failure_sentence, metadata = md\<rparr>, []), s)"
| "attempts_logged loads question (attempt # rest) md s =
     (case stages loads question s of
        (Inl e, s') \<Rightarrow> (Inl e, s')
      | (Inr a, s3) \<Rightarrow>
     (case absorb attempt md a of
        Inl e \<Rightarrow> (Inl e, s3)
      | Inr (md', Some res) \<Rightarrow> (Inr (res, [a]), s3)
      | Inr (md', None) \<Rightarrow>
     (case attempts_logged loads question rest md' s3 of
        (Inl e, s') \<Rightarrow> (Inl e, s')
      | (Inr (res, later), s') \<Rightarrow> (Inr (res, a # later), s'))))"

definition solve_logged ::
  "decoder \<Rightarrow> string \<Rightarrow> int \<Rightarrow> script
     \<Rightarrow> (py_error + final_result \<times> attempt_run list) \<times> script" where
  "solve_logged loads question max_retries s =
     attempts_logged loads question [0..max_retries]
       \<lparr>plan_md = None, checks = [], retries = 0\<rparr> s"

text \<open>What a logged attempt says: the verdict's gate and the checks it contributed.\<close>

definition verdict_passed :: "attempt_run \<Rightarrow> bool" where
  "verdict_passed a =
     (case py_get (verified a) ''passed'' (JBool False) of
        Inl e \<Rightarrow> False
      | Inr passed \<Rightarrow> truthy passed)"

definition verdict_checks :: "attempt_run \<Rightarrow> json list" where
  "verdict_checks a =
     (case py_get (verified a) ''checks'' (JArr []) of
        Inl e \<Rightarrow> []
      | Inr cs \<Rightarrow> (case py_iter cs of Inl e \<Rightarrow> [] | Inr ys \<Rightarrow> ys))"

text \<open>The verdict's \<open>passed\<close> field is the boolean \<open>true\<close>.\<close>

definition verdict_is_true :: "attempt_run \<Rightarrow> bool" where
  "verdict_is_true a = (py_get (verified a) ''passed'' (JBool False) = Inr (JBool True))"



text \<open>What executor and verifier decode from a response of the service.\<close>

definition decoded :: "decoder \<Rightarrow> string option \<Rightarrow> json option" where
  "decoded loads reply = loads (strip_fences (py_strip (reply_text reply)))"

text \<open>A decoded value is an object with the given field.\<close>

definition has_field :: "json \<Rightarrow> string \<Rightarrow> bool" where
  "has_field v key = (case v of JObj kvs \<Rightarrow> map_of kvs key \<noteq> None | _ \<Rightarrow> False)"

section \<open>Sample responses\<close>

text \<open>The whitespace that JSON allows around a document.\<close>

definition json_ws :: "char \<Rightarrow> bool" where
  "json_ws c = (c = CHR '' '' \<or> c = CHR 0x09 \<or> c = CHR 0x0A \<or> c = CHR 0x0D)"

definition json_trim :: "string \<Rightarrow> string" where
  "json_trim s = rev (dropWhile json_ws (rev (dropWhile json_ws s)))"

text \<open>
  A decoder for the examples: it knows the documents listed here, with the value
  \<^verbatim>\<open>json.loads\<close> returns for each, ignores whitespace around them, and rejects
  every other text.
\<close>

definition sample_documents :: "(string \<times> json) list" where
  \<open>sample_documents =
    [(''{"proposed_answer": "13", "explanation": "8 + 5 = 13"}'',
        JObj [(''proposed_answer'', JStr ''13''), (''explanation'', JStr ''8 + 5 = 13'')]),
     (''{"proposed_answer": "13", "explanation": " ok"}'',
        JObj [(''proposed_answer'', JStr ''13''), (''explanation'', JStr '' ok'')]),
     (''{"passed": true, "checks": [{"check_name": "sum", "passed": true}]}'',
        JObj [(''passed'', JBool True),
              (''checks'', JArr [JObj [(''check_name'', JStr ''sum''), (''passed'', JBool True)]])]),
     (''{"passed": false, "checks": [{"check_name": "sum", "passed": false}]}'',
        JObj [(''passed'', JBool False),
              (''checks'', JArr [JObj [(''check_name'', JStr ''sum''), (''passed'', JBool False)]])]),
     (''{"passed": false, "checks": [], "issues": "unclear"}'',
        JObj [(''passed'', JBool False), (''checks'', JArr []), (''issues'', JStr ''unclear'')]),
     (''{"passed": "no"}'', JObj [(''passed'', JStr ''no'')]),
     (''{"checks": [{"check_name": "sum", "passed": true}]}'',
        JObj [(''checks'', JArr [JObj [(''check_name'', JStr ''sum''), (''passed'', JBool True)]])]),
     (''{"passed": false}'', JObj [(''passed'', JBool False)]),
     (''{}'', JObj [])]\<close>

definition sample_loads :: decoder where
  "sample_loads text = map_of sample_documents (json_trim text)"

definition plan_reply :: service_reply where
  "plan_reply = Responds (Some ''1. add'')"

definition exec_reply :: service_reply where
  \<open>exec_reply = Responds (Some ''{"proposed_answer": "13", "explanation": "8 + 5 = 13"}'')\<close>

definition pass_reply :: service_reply where
  \<open>pass_reply =
     Responds (Some ''{"passed": true, "checks": [{"check_name": "sum", "passed": true}]}'')\<close>

definition fail_reply :: service_reply where
  \<open>fail_reply =
     Responds (Some ''{"passed": false, "checks": [{"check_name": "sum", "passed": false}]}'')\<close>

text \<open>A rejected attempt followed by an accepted one, and two rejected attempts.\<close>

definition retry_script :: script where
  "retry_script = [plan_reply, exec_reply, fail_reply, plan_reply, exec_reply, pass_reply]"

definition failing_script :: script where
  "failing_script = [plan_reply, exec_reply, fail_reply, plan_reply, exec_reply, fail_reply]"

lemmas sample_defs =
  sample_loads_def sample_documents_def json_trim_def json_ws_def plan_reply_def
  exec_reply_def pass_reply_def fail_reply_def retry_script_def failing_script_def

section \<open>The logged loop is the loop\<close>

lemma attempts_Cons:
  "attempts loads question (attempt # rest) md s =
     (case stages loads question s of
        (Inl e, s') \<Rightarrow> (Inl e, s')
      | (Inr a, s3) \<Rightarrow>
     (case absorb attempt md a of
        Inl e \<Rightarrow> (Inl e, s3)
      | Inr (md', Some res) \<Rightarrow> (Inr res, s3)
      | Inr (md', None) \<Rightarrow> attempts loads question rest md' s3))"
  by (simp add: stages_def absorb_def Let_def split: prod.splits sum.splits)

lemma attempts_logged_plain:
  "attempts loads question as md s =
     (case attempts_logged loads question as md s of
        (Inl e, s') \<Rightarrow> (Inl e, s')
      | (Inr (res, hist), s') \<Rightarrow> (Inr res, s'))"
proof (induction as arbitrary: md s)
  case Nil
  show ?case by simp
next
  case (Cons attempt rest)
  show ?case
    unfolding attempts_Cons attempts_logged.simps
    by (simp add: Cons.IH split: prod.splits sum.splits option.splits)
qed

lemma solve_logged_plain:
  "solve loads question max_retries s =
     (case solve_logged loads question max_retries s of
        (Inl e, s') \<Rightarrow> (Inl e, s')
      | (Inr (res, hist), s') \<Rightarrow> (Inr res, s'))"
  unfolding solve_def solve_logged_def by (rule attempts_logged_plain)

lemma solve_returns_logged:
  assumes "solve loads question max_retries s = (Inr res, s')"
  shows "\<exists>hist. solve_logged loads question max_retries s = (Inr (res, hist), s')"
  using assms unfolding solve_logged_plain
  by (auto split: prod.splits sum.splits)

section \<open>What one attempt consumes and contributes\<close>

lemma gemini_call_pops:
  "gemini_call p s = (Inr t, s') \<Longrightarrow> \<exists>r. s = Responds r # s'"
  by (cases "(p, s)" rule: gemini_call.cases) auto

lemma gemini_call_length:
  "gemini_call p s = (x, s') \<Longrightarrow> length s' \<le> length s \<and> length s \<le> Suc (length s')"
  by (cases "(p, s)" rule: gemini_call.cases) auto

lemma plan_length:
  "plan q s = (x, s') \<Longrightarrow> length s' \<le> length s \<and> length s \<le> Suc (length s')"
  by (auto simp: plan_def split: prod.splits sum.splits dest: gemini_call_length)

lemma execute_length:
  "execute loads q p s = (x, s') \<Longrightarrow> length s' \<le> length s \<and> length s \<le> Suc (length s')"
  by (auto simp: execute_def split: prod.splits sum.splits option.splits dest: gemini_call_length)

lemma verify_llm_length:
  "verify_llm loads q er s = (x, s') \<Longrightarrow> length s' \<le> length s \<and> length s \<le> Suc (length s')"
  by (auto simp: verify_llm_def split: prod.splits sum.splits option.splits dest: gemini_call_length)

lemma stages_length:
  assumes "stages loads q s = (x, s')"
  shows "length s' \<le> length s \<and> length s \<le> length s' + 3"
  using assms
  by (auto simp: stages_def split: prod.splits sum.splits
      dest!: plan_length execute_length verify_llm_length)

lemma plan_Inr:
  "plan q s = (Inr p, s') \<Longrightarrow> \<exists>r. s = Responds r # s'"
  by (auto simp: plan_def split: prod.splits sum.splits dest: gemini_call_pops)

lemma execute_Inr:
  "execute loads q p s = (Inr v, s') \<Longrightarrow> \<exists>r. s = Responds r # s'"
  by (auto simp: execute_def split: prod.splits sum.splits option.splits dest: gemini_call_pops)

lemma verify_llm_Inr:
  "verify_llm loads q er s = (Inr v, s') \<Longrightarrow> \<exists>r. s = Responds r # s'"
  by (auto simp: verify_llm_def split: prod.splits sum.splits option.splits dest: gemini_call_pops)

lemma stages_Inr:
  assumes "stages loads q s = (Inr a, s')"
  shows "\<exists>r1 r2 r3. s = Responds r1 # Responds r2 # Responds r3 # s'"
  using assms
  by (auto simp: stages_def split: prod.splits sum.splits
      dest!: plan_Inr execute_Inr verify_llm_Inr)

lemma absorb_Inr:
  assumes "absorb attempt md a = Inr (md', r)"
  shows "md' = md\<lparr>retries := attempt, plan_md := Some (planned a),
                    checks := checks md @ verdict_checks a\<rparr>"
    and "(r = None) = (\<not> verdict_passed a)"
    and "r = Some res \<Longrightarrow>
           status res = ''success'' \<and> metadata res = md' \<and>
           py_get (executed a) ''proposed_answer'' (JStr []) = Inr (answer res) \<and>
           summarize_short (executed a) = Inr (reasoning_visible_to_user res)"
  using assms
  by (auto simp: absorb_def Let_def py_extend_def verdict_checks_def verdict_passed_def
      split: sum.splits if_splits)

lemma attempts_logged_ConsE:
  assumes "attempts_logged loads q (attempt # rest) md s = (Inr (res, hist), s')"
  obtains a md' where "stages loads q s = (Inr a, s')" "absorb attempt md a = Inr (md', Some res)"
      "hist = [a]"
    | a md' s3 later where "stages loads q s = (Inr a, s3)" "absorb attempt md a = Inr (md', None)"
      "attempts_logged loads q rest md' s3 = (Inr (res, later), s')" "hist = a # later"
  using assms
  by (auto split: prod.splits sum.splits option.splits)


lemma logged_shape:
  "attempts_logged loads q as md s = (Inr (res, hist), s') \<Longrightarrow>
     length hist \<le> length as \<and> length s = length s' + 3 * length hist \<and>
     checks (metadata res) = checks md @ concat (map verdict_checks hist) \<and>
     (hist = [] \<longrightarrow> metadata res = md \<and> as = []) \<and>
     (hist \<noteq> [] \<longrightarrow> retries (metadata res) = as ! (length hist - 1) \<and>
                    plan_md (metadata res) = Some (planned (last hist)))"
proof (induction as arbitrary: md s hist)
  case Nil
  then show ?case by auto
next
  case (Cons attempt rest)
  from Cons.prems show ?case
  proof (cases rule: attempts_logged_ConsE)
    case (1 a md')
    from stages_Inr [OF 1(1)] absorb_Inr(1) [OF 1(2)] absorb_Inr(3) [OF 1(2) refl] 1(3)
    show ?thesis by auto
  next
    case (2 a md' s3 later)
    note IH = Cons.IH [OF 2(3)]
    from stages_Inr [OF 2(1)] have len: "length s = length s3 + 3" by auto
    from absorb_Inr(1) [OF 2(2)]
    have md': "md' = md\<lparr>retries := attempt, plan_md := Some (planned a),
                    checks := checks md @ verdict_checks a\<rparr>" .
    show ?thesis
    proof (cases "later = []")
      case True
      with IH 2(4) len md' show ?thesis by auto
    next
      case False
      then have "length later - 1 < length later" by (cases later) auto
      with False IH 2(4) len md' show ?thesis
        by (auto simp: nth_Cons split: nat.splits)
    qed
  qed
qed

lemma logged_success:
  "attempts_logged loads q as md s = (Inr (res, hist), s') \<Longrightarrow> status res = ''success'' \<Longrightarrow>
     hist \<noteq> [] \<and> verdict_passed (last hist) \<and> (\<forall>a \<in> set (butlast hist). \<not> verdict_passed a) \<and>
     py_get (executed (last hist)) ''proposed_answer'' (JStr []) = Inr (answer res) \<and>
     summarize_short (executed (last hist)) = Inr (reasoning_visible_to_user res)"
proof (induction as arbitrary: md s hist)
  case Nil
  then show ?case by auto
next
  case (Cons attempt rest)
  from Cons.prems(1) show ?case
  proof (cases rule: attempts_logged_ConsE)
    case (1 a md')
    from absorb_Inr(2) [OF 1(2)] absorb_Inr(3) [OF 1(2) refl] 1(3)
    show ?thesis by auto
  next
    case (2 a md' s3 later)
    note IH = Cons.IH [OF 2(3) Cons.prems(2)]
    from absorb_Inr(2) [OF 2(2)] have "\<not> verdict_passed a" by simp
    with IH 2(4) show ?thesis by auto
  qed
qed

lemma logged_failed:
  "attempts_logged loads q as md s = (Inr (res, hist), s') \<Longrightarrow> status res \<noteq> ''success'' \<Longrightarrow>
     status res = ''failed'' \<and> length hist = length as \<and> (\<forall>a \<in> set hist. \<not> verdict_passed a) \<and>
     answer res = JStr [] \<and> reasoning_visible_to_user res = failure_sentence"
proof (induction as arbitrary: md s hist)
  case Nil
  then show ?case by auto
next
  case (Cons attempt rest)
  from Cons.prems(1) show ?case
  proof (cases rule: attempts_logged_ConsE)
    case (1 a md')
    from absorb_Inr(3) [OF 1(2) refl] Cons.prems(2)
    show ?thesis by auto
  next
    case (2 a md' s3 later)
    note IH = Cons.IH [OF 2(3) Cons.prems(2)]
    from absorb_Inr(2) [OF 2(2)] have "\<not> verdict_passed a" by simp
    with IH 2(4) show ?thesis by auto
  qed
qed

lemma attempts_logged_length:
  "attempts_logged loads q as md s = (x, s') \<Longrightarrow>
     length s' \<le> length s \<and> length s \<le> length s' + 3 * length as"
proof (induction as arbitrary: md s x s')
  case Nil
  then show ?case by auto
next
  case (Cons attempt rest)
  obtain y s3 where st: "stages loads q s = (y, s3)" by (cases "stages loads q s")
  note len = stages_length [OF st]
  show ?case
  proof (cases y)
    case (Inl e)
    with st Cons.prems len show ?thesis by auto
  next
    case (Inr a)
    show ?thesis
    proof (cases "absorb attempt md a")
      case (Inl e)
      with st Inr Cons.prems len show ?thesis by auto
    next
      case ab: (Inr mr)
      obtain md' r where mr: "mr = (md', r)" by (cases mr)
      show ?thesis
      proof (cases r)
        case (Some res)
        with st Inr ab mr Cons.prems len show ?thesis by auto
      next
        case None
        obtain z s4 where rec: "attempts_logged loads q rest md' s3 = (z, s4)"
          by (cases "attempts_logged loads q rest md' s3")
        from Cons.IH [OF rec] have "length s4 \<le> length s3 \<and> length s3 \<le> length s4 + 3 * length rest" .
        moreover from st Inr ab mr None rec Cons.prems have "s' = s4"
          by (auto split: sum.splits prod.splits)
        ultimately show ?thesis using len by auto
      qed
    qed
  qed
qed

lemma upto_nth_last:
  assumes "hist \<noteq> []" "length hist \<le> length [0..m]"
  shows "[0..m] ! (length hist - 1) = int (length hist) - 1"
proof -
  from assms have "0 + int (length hist - 1) \<le> m" by (cases hist) auto
  then have "[0..m] ! (length hist - 1) = 0 + int (length hist - 1)" by (rule nth_upto)
  with assms(1) show ?thesis by (cases hist) auto
qed

section \<open>Acceptance\<close>

text \<open>
  Claim C1, as the code has it. When \<open>solve\<close> returns with status \<open>success\<close>, the
  run has a last attempt; that attempt's verdict is an object whose \<open>passed\<close> field is
  present and true in the sense of Python's \<^verbatim>\<open>if\<close> (the boolean true, a number other
  than zero, a non-empty string, array or object); and the returned answer is the
  \<open>proposed_answer\<close> field of that attempt's execution result, or the empty string
  when the field is absent.
\<close>

theorem C1_success_gate:
  assumes "solve loads question max_retries s = (Inr res, s')"
    and "status res = ''success''"
  shows "\<exists>hist. solve_logged loads question max_retries s = (Inr (res, hist), s') \<and>
           hist \<noteq> [] \<and> verdict_passed (last hist) \<and>
           py_get (executed (last hist)) ''proposed_answer'' (JStr []) = Inr (answer res)"
proof -
  from solve_returns_logged [OF assms(1)] obtain hist
    where h: "solve_logged loads question max_retries s = (Inr (res, hist), s')" ..
  from logged_success [OF h [unfolded solve_logged_def] assms(2)] h
  show ?thesis by blast
qed

text \<open>Scenario B of the specification: a rejected attempt, then an accepted one.\<close>

theorem C1_success_gate_witness:
  "solve sample_loads ''q'' 1 retry_script =
     (Inr \<lparr>answer = JStr ''13'', status = ''success'',
           reasoning_visible_to_user = ''8 + 5 = 13'',
           metadata = \<lparr>plan_md = Some ''1. add'',
             checks = [JObj [(''check_name'', JStr ''sum''), (''passed'', JBool False)],
                       JObj [(''check_name'', JStr ''sum''), (''passed'', JBool True)]],
             retries = 1\<rparr>\<rparr>, []) \<and>
   (\<exists>hist. solve_logged sample_loads ''q'' 1 retry_script =
     (Inr (\<lparr>answer = JStr ''13'', status = ''success'',
           reasoning_visible_to_user = ''8 + 5 = 13'',
           metadata = \<lparr>plan_md = Some ''1. add'',
             checks = [JObj [(''check_name'', JStr ''sum''), (''passed'', JBool False)],
                       JObj [(''check_name'', JStr ''sum''), (''passed'', JBool True)]],
             retries = 1\<rparr>\<rparr>, hist), []) \<and> hist \<noteq> [] \<and> verdict_passed (last hist) \<and>
     py_get (executed (last hist)) ''proposed_answer'' (JStr []) = Inr (JStr ''13''))"
proof -
  have run: "solve sample_loads ''q'' 1 retry_script =
     (Inr \<lparr>answer = JStr ''13'', status = ''success'',
           reasoning_visible_to_user = ''8 + 5 = 13'',
           metadata = \<lparr>plan_md = Some ''1. add'',
             checks = [JObj [(''check_name'', JStr ''sum''), (''passed'', JBool False)],
                       JObj [(''check_name'', JStr ''sum''), (''passed'', JBool True)]],
             retries = 1\<rparr>\<rparr>, [])"
    by code_simp
  from C1_success_gate [OF run] run show ?thesis by simp
qed

text \<open>
  Claim C1 as it is stated fails: a verdict whose \<open>passed\<close> field is the string
  \<^verbatim>\<open>"no"\<close> is accepted, although the field is not the boolean true.
\<close>

theorem C1_counterexample:
  \<open>solve sample_loads ''q'' 0
     [plan_reply, exec_reply, Responds (Some ''{"passed": "no"}'')] =
     (Inr \<lparr>answer = JStr ''13'', status = ''success'',
           reasoning_visible_to_user = ''8 + 5 = 13'',
           metadata = \<lparr>plan_md = Some ''1. add'', checks = [], retries = 0\<rparr>\<rparr>, []) \<and>
   solve_logged sample_loads ''q'' 0
     [plan_reply, exec_reply, Responds (Some ''{"passed": "no"}'')] =
     (Inr (\<lparr>answer = JStr ''13'', status = ''success'',
            reasoning_visible_to_user = ''8 + 5 = 13'',
            metadata = \<lparr>plan_md = Some ''1. add'', checks = [], retries = 0\<rparr>\<rparr>,
           [\<lparr>planned = ''1. add'',
             executed = JObj [(''proposed_answer'', JStr ''13''),
                              (''explanation'', JStr ''8 + 5 = 13'')],
             verified = JObj [(''passed'', JStr ''no'')]\<rparr>]), []) \<and>
   \<not> verdict_is_true \<lparr>planned = ''1. add'',
             executed = JObj [(''proposed_answer'', JStr ''13''),
                              (''explanation'', JStr ''8 + 5 = 13'')],
             verified = JObj [(''passed'', JStr ''no'')]\<rparr>\<close>
  by code_simp



section \<open>Exhaustion\<close>



section \<open>The number of attempts\<close>

text \<open>
  Claim C3. With \<open>max_retries \<ge> 0\<close>, every run, also one that ends in an exception,
  takes at most \<open>3 * (max_retries + 1)\<close> replies from the service, three for each
  attempt. A run that returns has executed between one and \<open>max_retries + 1\<close>
  attempts, \<open>metadata.retries\<close> is the index of the last of them, counted from zero,
  and lies between \<open>0\<close> and \<open>max_retries\<close>.
\<close>

theorem C3_attempt_bound:
  assumes "0 \<le> max_retries"
  shows "length (snd (solve loads question max_retries s)) \<le> length s \<and>
         length s \<le> length (snd (solve loads question max_retries s))
                       + 3 * nat (max_retries + 1) \<and>
         (\<forall>res s'. solve loads question max_retries s = (Inr res, s') \<longrightarrow>
            (\<exists>hist. solve_logged loads question max_retries s = (Inr (res, hist), s') \<and>
               1 \<le> length hist \<and> length hist \<le> nat (max_retries + 1) \<and>
               length s = length s' + 3 * length hist \<and>
               retries (metadata res) = int (length hist) - 1 \<and>
               0 \<le> retries (metadata res) \<and> retries (metadata res) \<le> max_retries))"
proof -
  have len: "length [0..max_retries] = nat (max_retries + 1)" by simp
  obtain x t where lg: "solve_logged loads question max_retries s = (x, t)"
    by (cases "solve_logged loads question max_retries s")
  from attempts_logged_length [OF lg [unfolded solve_logged_def]] len
  have "length t \<le> length s \<and> length s \<le> length t + 3 * nat (max_retries + 1)" by simp
  moreover have "snd (solve loads question max_retries s) = t"
    by (simp add: solve_logged_plain lg split: sum.splits prod.splits)
  ultimately have consumed: "length (snd (solve loads question max_retries s)) \<le> length s \<and>
         length s \<le> length (snd (solve loads question max_retries s))
                       + 3 * nat (max_retries + 1)" by simp
  have returned: "\<exists>hist. solve_logged loads question max_retries s = (Inr (res, hist), s') \<and>
               1 \<le> length hist \<and> length hist \<le> nat (max_retries + 1) \<and>
               length s = length s' + 3 * length hist \<and>
               retries (metadata res) = int (length hist) - 1 \<and>
               0 \<le> retries (metadata res) \<and> retries (metadata res) \<le> max_retries"
    if ret: "solve loads question max_retries s = (Inr res, s')" for res s'
  proof -
    from solve_returns_logged [OF ret] obtain hist
      where run: "solve_logged loads question max_retries s = (Inr (res, hist), s')" ..
    note shape = logged_shape [OF run [unfolded solve_logged_def]]
    from assms have "[0..max_retries] \<noteq> []" by (simp add: upto_rec1)
    with shape have ne: "hist \<noteq> []" by blast
    from shape have le: "length hist \<le> length [0..max_retries]" by blast
    from upto_nth_last [OF ne le] shape ne
    have r: "retries (metadata res) = int (length hist) - 1" by simp
    from ne have "1 \<le> length hist" by (cases hist) auto
    with run shape r le len show ?thesis by auto
  qed
  from consumed returned show ?thesis by blast
qed

theorem C3_attempt_bound_witness:
  "(0::int) \<le> 1 \<and>
   solve sample_loads ''q'' 1 (retry_script @ [plan_reply]) =
     (Inr \<lparr>answer = JStr ''13'', status = ''success'',
           reasoning_visible_to_user = ''8 + 5 = 13'',
           metadata = \<lparr>plan_md = Some ''1. add'',
             checks = [JObj [(''check_name'', JStr ''sum''), (''passed'', JBool False)],
                       JObj [(''check_name'', JStr ''sum''), (''passed'', JBool True)]],
             retries = 1\<rparr>\<rparr>, [plan_reply]) \<and>
   (\<exists>hist. solve_logged sample_loads ''q'' 1 (retry_script @ [plan_reply]) =
     (Inr (\<lparr>answer = JStr ''13'', status = ''success'',
           reasoning_visible_to_user = ''8 + 5 = 13'',
           metadata = \<lparr>plan_md = Some ''1. add'',
             checks = [JObj [(''check_name'', JStr ''sum''), (''passed'', JBool False)],
                       JObj [(''check_name'', JStr ''sum''), (''passed'', JBool True)]],
             retries = 1\<rparr>\<rparr>, hist), [plan_reply]) \<and> length hist = 2)"
proof -
  have run: "solve sample_loads ''q'' 1 (retry_script @ [plan_reply]) =
     (Inr \<lparr>answer = JStr ''13'', status = ''success'',
           reasoning_visible_to_user = ''8 + 5 = 13'',
           metadata = \<lparr>plan_md = Some ''1. add'',
             checks = [JObj [(''check_name'', JStr ''sum''), (''passed'', JBool False)],
                       JObj [(''check_name'', JStr ''sum''), (''passed'', JBool True)]],
             retries = 1\<rparr>\<rparr>, [plan_reply])"
    by code_simp
  have "(0::int) \<le> 1" by simp
  from C3_attempt_bound [OF this, of sample_loads "''q''" "retry_script @ [plan_reply]"] run
  show ?thesis by auto
qed

section \<open>Accumulated checks\<close>

lemma length_concat_nonempty:
  "\<forall>x \<in> set xss. x \<noteq> [] \<Longrightarrow> length xss \<le> length (concat xss)"
proof (induction xss)
  case Nil
  show ?case by simp
next
  case (Cons x xss)
  then have "1 \<le> length x" by (cases x) auto
  with Cons show ?case by auto
qed

text \<open>
  Claim C4. In a run that returns, \<open>metadata.checks\<close> is the concatenation, in attempt
  order, of the checks of every executed attempt, the rejected ones included: the
  checks of the first \<open>k\<close> attempts are a prefix of it for every \<open>k\<close>. When every
  executed attempt contributed at least one check, there are at least as many checks
  as attempts.
\<close>

theorem C4_checks_accumulate:
  assumes "solve loads question max_retries s = (Inr res, s')"
  shows "\<exists>hist. solve_logged loads question max_retries s = (Inr (res, hist), s') \<and>
           checks (metadata res) = concat (map verdict_checks hist) \<and>
           (\<forall>k \<le> length hist. take (length (concat (map verdict_checks (take k hist))))
                                  (checks (metadata res))
                             = concat (map verdict_checks (take k hist))) \<and>
           ((\<forall>a \<in> set hist. verdict_checks a \<noteq> []) \<longrightarrow>
              length hist \<le> length (checks (metadata res)))"
proof -
  from solve_returns_logged [OF assms] obtain hist
    where run: "solve_logged loads question max_retries s = (Inr (res, hist), s')" ..
  from logged_shape [OF run [unfolded solve_logged_def]]
  have all: "checks (metadata res) = concat (map verdict_checks hist)" by simp
  have pre: "take (length (concat (map verdict_checks (take k hist)))) (checks (metadata res))
               = concat (map verdict_checks (take k hist))" for k
  proof -
    have "concat (map verdict_checks hist) =
            concat (map verdict_checks (take k hist)) @ concat (map verdict_checks (drop k hist))"
      by (metis append_take_drop_id concat_append map_append)
    with all show ?thesis by simp
  qed
  have "length hist \<le> length (checks (metadata res))"
    if "\<forall>a \<in> set hist. verdict_checks a \<noteq> []"
    using length_concat_nonempty [of "map verdict_checks hist"] that all by simp
  with run all pre show ?thesis by blast
qed

theorem C4_checks_accumulate_witness:
  "solve sample_loads ''q'' 1 retry_script =
     (Inr \<lparr>answer = JStr ''13'', status = ''success'',
           reasoning_visible_to_user = ''8 + 5 = 13'',
           metadata = \<lparr>plan_md = Some ''1. add'',
             checks = [JObj [(''check_name'', JStr ''sum''), (''passed'', JBool False)],
                       JObj [(''check_name'', JStr ''sum''), (''passed'', JBool True)]],
             retries = 1\<rparr>\<rparr>, []) \<and>
   (\<exists>hist. solve_logged sample_loads ''q'' 1 retry_script =
     (Inr (\<lparr>answer = JStr ''13'', status = ''success'',
           reasoning_visible_to_user = ''8 + 5 = 13'',
           metadata = \<lparr>plan_md = Some ''1. add'',
             checks = [JObj [(''check_name'', JStr ''sum''), (''passed'', JBool False)],
                       JObj [(''check_name'', JStr ''sum''), (''passed'', JBool True)]],
             retries = 1\<rparr>\<rparr>, hist), []) \<and>
      concat (map verdict_checks hist) =
        [JObj [(''check_name'', JStr ''sum''), (''passed'', JBool False)],
         JObj [(''check_name'', JStr ''sum''), (''passed'', JBool True)]])"
proof -
  have run: "solve sample_loads ''q'' 1 retry_script =
     (Inr \<lparr>answer = JStr ''13'', status = ''success'',
           reasoning_visible_to_user = ''8 + 5 = 13'',
           metadata = \<lparr>plan_md = Some ''1. add'',
             checks = [JObj [(''check_name'', JStr ''sum''), (''passed'', JBool False)],
                       JObj [(''check_name'', JStr ''sum''), (''passed'', JBool True)]],
             retries = 1\<rparr>\<rparr>, [])"
    by code_simp
  from C4_checks_accumulate [OF run] run show ?thesis by auto
qed

section \<open>The reasoning shown to the user\<close>

lemma summarize_short_length:
  "summarize_short er = Inr short \<Longrightarrow> length short \<le> 250"
  by (auto simp: summarize_short_def split: sum.splits json.splits)

lemma summarize_short_Inr:
  "summarize_short er = Inr short \<Longrightarrow>
     \<exists>expl. py_get er ''explanation'' (JStr []) = Inr (JStr expl) \<and>
            short = take 250 (py_strip expl)"
  by (auto simp: summarize_short_def split: sum.splits json.splits)

lemma failure_sentence_length: "length failure_sentence \<le> 250"
  by (simp add: failure_sentence_def)

text \<open>
  Claim C9, as the code has it. In a run that returns, \<open>reasoning_visible_to_user\<close>
  has at most 250 characters. On success it is the explanation of the last attempt
  with the whitespace at both ends removed and then cut to its first 250 characters
  (the explanation is the empty string when the field is absent); otherwise the
  status is \<open>failed\<close> and it is the fixed sentence.
\<close>

theorem C9_reasoning_bound:
  assumes "solve loads question max_retries s = (Inr res, s')"
  shows "length (reasoning_visible_to_user res) \<le> 250 \<and>
         (status res = ''success'' \<longrightarrow>
            (\<exists>hist expl. solve_logged loads question max_retries s = (Inr (res, hist), s') \<and>
               hist \<noteq> [] \<and>
               py_get (executed (last hist)) ''explanation'' (JStr []) = Inr (JStr expl) \<and>
               reasoning_visible_to_user res = take 250 (py_strip expl))) \<and>
         (status res \<noteq> ''success'' \<longrightarrow>
            status res = ''failed'' \<and> reasoning_visible_to_user res = failure_sentence)"
proof -
  from solve_returns_logged [OF assms] obtain hist
    where run: "solve_logged loads question max_retries s = (Inr (res, hist), s')" ..
  show ?thesis
  proof (cases "status res = ''success''")
    case True
    from logged_success [OF run [unfolded solve_logged_def] True]
    have ne: "hist \<noteq> []"
      and sh: "summarize_short (executed (last hist)) = Inr (reasoning_visible_to_user res)"
      by simp_all
    from summarize_short_Inr [OF sh] summarize_short_length [OF sh] run ne True
    show ?thesis by blast
  next
    case False
    from logged_failed [OF run [unfolded solve_logged_def] False] False failure_sentence_length
    show ?thesis by simp
  qed
qed

theorem C9_reasoning_bound_witness:
  \<open>solve sample_loads ''q'' 0
     [plan_reply, Responds (Some ''{"proposed_answer": "13", "explanation": " ok"}''),
      pass_reply] =
     (Inr \<lparr>answer = JStr ''13'', status = ''success'',
           reasoning_visible_to_user = ''ok'',
           metadata = \<lparr>plan_md = Some ''1. add'',
             checks = [JObj [(''check_name'', JStr ''sum''), (''passed'', JBool True)]],
             retries = 0\<rparr>\<rparr>, []) \<and>
   length ''ok'' \<le> (250::nat) \<and>
   (\<exists>hist expl. solve_logged sample_loads ''q'' 0
     [plan_reply, Responds (Some ''{"proposed_answer": "13", "explanation": " ok"}''),
      pass_reply] =
     (Inr (\<lparr>answer = JStr ''13'', status = ''success'',
           reasoning_visible_to_user = ''ok'',
           metadata = \<lparr>plan_md = Some ''1. add'',
             checks = [JObj [(''check_name'', JStr ''sum''), (''passed'', JBool True)]],
             retries = 0\<rparr>\<rparr>, hist), []) \<and>
      py_get (executed (last hist)) ''explanation'' (JStr []) = Inr (JStr expl) \<and>
      ''ok'' = take 250 (py_strip expl))\<close>
proof -
  have run: \<open>solve sample_loads ''q'' 0
     [plan_reply, Responds (Some ''{"proposed_answer": "13", "explanation": " ok"}''),
      pass_reply] =
     (Inr \<lparr>answer = JStr ''13'', status = ''success'',
           reasoning_visible_to_user = ''ok'',
           metadata = \<lparr>plan_md = Some ''1. add'',
             checks = [JObj [(''check_name'', JStr ''sum''), (''passed'', JBool True)]],
             retries = 0\<rparr>\<rparr>, [])\<close>
    by code_simp
  from C9_reasoning_bound [OF run] run show ?thesis by auto
qed

text \<open>
  Claim C9 as it is stated fails: the explanation \<^verbatim>\<open>" ok"\<close> begins with a space, and
  the reasoning returned is \<^verbatim>\<open>"ok"\<close>, not the first 250 characters of the explanation.
\<close>

theorem C9_counterexample:
  \<open>solve_logged sample_loads ''q'' 0
     [plan_reply, Responds (Some ''{"proposed_answer": "13", "explanation": " ok"}''),
      pass_reply] =
     (Inr (\<lparr>answer = JStr ''13'', status = ''success'',
            reasoning_visible_to_user = ''ok'',
            metadata = \<lparr>plan_md = Some ''1. add'',
              checks = [JObj [(''check_name'', JStr ''sum''), (''passed'', JBool True)]],
              retries = 0\<rparr>\<rparr>,
           [\<lparr>planned = ''1. add'',
             executed = JObj [(''proposed_answer'', JStr ''13''), (''explanation'', JStr '' ok'')],
             verified = JObj [(''passed'', JBool True),
               (''checks'', JArr [JObj [(''check_name'', JStr ''sum''),
                                        (''passed'', JBool True)]])]\<rparr>]), []) \<and>
   ''ok'' \<noteq> take 250 '' ok''\<close>
  by code_simp

section \<open>What the executor returns\<close>

text \<open>
  Claim C6, as the code has it. \<open>execute\<close> ends with the decoding error exactly when
  the service responded and the stripped response, without its fence markers, is
  not valid structured data. When that text is valid structured data, \<open>execute\<close>
  returns the decoded value as it is: no field is required of it.
\<close>

theorem C6_execute_parse:
  "(fst (execute loads question plan_text s) = Inl JSONDecodeError \<longleftrightarrow>
      (\<exists>text rest. s = Responds text # rest \<and>
         loads (strip_fences (py_strip (reply_text text))) = None)) \<and>
   (\<forall>text rest v. s = Responds text # rest \<and>
         loads (strip_fences (py_strip (reply_text text))) = Some v \<longrightarrow>
      execute loads question plan_text s = (Inr v, rest))"
proof (cases "(ExecutorPrompt question plan_text, s)" rule: gemini_call.cases)
  case (1 prompt)
  then show ?thesis by (simp add: execute_def)
next
  case (2 prompt rest)
  then show ?thesis by (simp add: execute_def)
next
  case (3 prompt reply rest)
  then show ?thesis by (simp add: execute_def split: option.splits)
qed

theorem C6_execute_parse_witness:
  \<open>execute sample_loads ''q'' ''1. add'' [Responds (Some ''not json''), pass_reply] =
     (Inl JSONDecodeError, [pass_reply]) \<and>
   execute sample_loads ''q'' ''1. add'' [Responds (Some ''{}''), pass_reply] =
     (Inr (JObj []), [pass_reply])\<close>
proof -
  have bad: "sample_loads (strip_fences (py_strip (reply_text (Some ''not json'')))) = None"
    by code_simp
  have good: "sample_loads (strip_fences (py_strip (reply_text (Some ''{}'')))) = Some (JObj [])"
    by code_simp
  from C6_execute_parse [of sample_loads "''q''" "''1. add''"
      "[Responds (Some ''not json''), pass_reply]"] bad
  have "fst (execute sample_loads ''q'' ''1. add'' [Responds (Some ''not json''), pass_reply])
          = Inl JSONDecodeError" by blast
  moreover have "snd (execute sample_loads ''q'' ''1. add''
      [Responds (Some ''not json''), pass_reply]) = [pass_reply]"
    by (simp add: execute_def split: option.splits)
  moreover from C6_execute_parse [of sample_loads "''q''" "''1. add''"
      "[Responds (Some ''{}''), pass_reply]"] good
  have "execute sample_loads ''q'' ''1. add'' [Responds (Some ''{}''), pass_reply] =
     (Inr (JObj []), [pass_reply])" by blast
  ultimately show ?thesis by (simp add: prod_eq_iff)
qed

text \<open>
  Claim C6 as it is stated fails: the response \<^verbatim>\<open>{}\<close> is valid structured data
  with neither \<open>proposed_answer\<close> nor \<open>explanation\<close>, and \<open>execute\<close> returns it.
\<close>

theorem C6_counterexample:
  "execute sample_loads ''q'' ''1. add'' [Responds (Some ''{}'')] = (Inr (JObj []), []) \<and>
   \<not> has_field (JObj []) ''proposed_answer'' \<and> \<not> has_field (JObj []) ''explanation''"
  by code_simp

section \<open>Verdicts with missing fields\<close>



section \<open>Decoding errors\<close>

text \<open>A call that returned returns the same with more replies behind the script.\<close>

lemma gemini_call_append:
  "gemini_call p s = (Inr x, s') \<Longrightarrow> gemini_call p (s @ t) = (Inr x, s' @ t)"
  by (cases "(p, s)" rule: gemini_call.cases) auto

lemma plan_append:
  "plan q s = (Inr x, s') \<Longrightarrow> plan q (s @ t) = (Inr x, s' @ t)"
  by (auto simp: plan_def split: prod.splits sum.splits dest: gemini_call_append [where t = t])

lemma execute_append:
  "execute loads q p s = (Inr x, s') \<Longrightarrow> execute loads q p (s @ t) = (Inr x, s' @ t)"
  by (auto simp: execute_def split: prod.splits sum.splits option.splits
      dest: gemini_call_append [where t = t])

lemma verify_llm_append:
  "verify_llm loads q er s = (Inr x, s') \<Longrightarrow> verify_llm loads q er (s @ t) = (Inr x, s' @ t)"
  by (auto simp: verify_llm_def split: prod.splits sum.splits option.splits
      dest: gemini_call_append [where t = t])

lemma stages_append:
  assumes "stages loads q s = (Inr a, s')"
  shows "stages loads q (s @ t) = (Inr a, s' @ t)"
proof -
  from assms obtain p s1 er s2 vr where
    1: "plan q s = (Inr p, s1)" and 2: "execute loads q p s1 = (Inr er, s2)"
    and 3: "verify_llm loads q er s2 = (Inr vr, s')"
    and a: "a = \<lparr>planned = p, executed = er, verified = vr\<rparr>"
    by (auto simp: stages_def split: prod.splits sum.splits)
  from plan_append [OF 1, of t] execute_append [OF 2, of t] verify_llm_append [OF 3, of t] a
  show ?thesis by (simp add: stages_def)
qed

text \<open>
  A script that is used up by attempts that are all rejected is a prefix of any
  longer run: the loop goes on behind it with the metadata it has accumulated.
\<close>

lemma attempts_append:
  "attempts loads q as md pre = (Inr r, []) \<Longrightarrow> status r = ''failed'' \<Longrightarrow>
     attempts loads q (as @ bs) md (pre @ t) = attempts loads q bs (metadata r) t"
proof (induction as arbitrary: md pre)
  case Nil
  then show ?case by auto
next
  case (Cons attempt rest)
  from Cons.prems(1) obtain a s3 where st: "stages loads q pre = (Inr a, s3)"
    by (auto simp: attempts_Cons simp del: attempts.simps split: prod.splits sum.splits)
  from Cons.prems(1) st obtain md' ro where ab: "absorb attempt md a = Inr (md', ro)"
    by (auto simp: attempts_Cons simp del: attempts.simps split: prod.splits sum.splits)
  have "ro = None"
  proof (cases ro)
    case (Some res)
    with Cons.prems(1) st ab have "r = res"
      by (simp add: attempts_Cons del: attempts.simps)
    with absorb_Inr(3) [OF ab Some] Cons.prems(2) show ?thesis by simp
  qed simp
  with Cons.prems(1) st ab have rec: "attempts loads q rest md' s3 = (Inr r, [])"
    by (simp add: attempts_Cons del: attempts.simps)
  from Cons.IH [OF rec Cons.prems(2)] stages_append [OF st, of t] ab \<open>ro = None\<close>
  show ?case by (simp add: attempts_Cons del: attempts.simps)
qed

text \<open>
  Claim C5. Let the attempts before attempt \<open>k\<close> be rejected, using up the replies
  \<open>pre\<close>, and let attempt \<open>k \<le> max_retries\<close> meet a response that does not decode:
  the executor's, or the verifier's after the executor returned an object. Then
  \<open>solve\<close> ends with the decoding error, whatever \<open>max_retries\<close> is, and no reply
  behind the failing one is taken from the service.
\<close>

theorem C5_parse_error_propagates:
  assumes "0 \<le> k" and "k \<le> max_retries"
    and "solve loads question (k - 1) pre = (Inr r, [])" and "status r = ''failed''"
    and "att = Responds p # Responds e # later"
    and "(decoded loads e = None \<and> left = later) \<or>
         (\<exists>kvs v rest. decoded loads e = Some (JObj kvs) \<and> later = Responds v # rest \<and>
            decoded loads v = None \<and> left = rest)"
  shows "solve loads question max_retries (pre @ att) = (Inl JSONDecodeError, left)"
proof -
  from assms(1,2) have split: "[0..max_retries] = [0..k - 1] @ k # [k + 1..max_retries]"
    by (simp add: upto_split3)
  have failing: "attempts loads question (k # rest') md att = (Inl JSONDecodeError, left)"
    for rest' md
    using assms(5,6)
    by (auto simp: decoded_def plan_def execute_def verify_llm_def simp del: attempts.simps(1))
  from attempts_append [OF assms(3) [unfolded solve_def] assms(4),
      of "k # [k + 1..max_retries]" att] split failing
  show ?thesis by (simp add: solve_def)
qed

text \<open>One rejected attempt, then a response that does not decode, with two retries left.\<close>

theorem C5_parse_error_propagates_witness:
  \<open>solve sample_loads ''q'' 0 [plan_reply, exec_reply, fail_reply] =
     (Inr \<lparr>answer = JStr [], status = ''failed'',
           reasoning_visible_to_user = failure_sentence,
           metadata = \<lparr>plan_md = Some ''1. add'',
             checks = [JObj [(''check_name'', JStr ''sum''), (''passed'', JBool False)]],
             retries = 0\<rparr>\<rparr>, []) \<and>
   decoded sample_loads (Some ''not json'') = None \<and>
   solve sample_loads ''q'' 3
     ([plan_reply, exec_reply, fail_reply] @
      [plan_reply, Responds (Some ''not json''), pass_reply, plan_reply, exec_reply, pass_reply])
     = (Inl JSONDecodeError, [pass_reply, plan_reply, exec_reply, pass_reply]) \<and>
   decoded sample_loads (Some ''{"proposed_answer": "13", "explanation": "8 + 5 = 13"}'') =
     Some (JObj [(''proposed_answer'', JStr ''13''), (''explanation'', JStr ''8 + 5 = 13'')]) \<and>
   solve sample_loads ''q'' 3
     ([plan_reply, exec_reply, fail_reply] @
      [plan_reply, Responds (Some ''{"proposed_answer": "13", "explanation": "8 + 5 = 13"}''),
       Responds (Some ''not json''), plan_reply, exec_reply, pass_reply])
     = (Inl JSONDecodeError, [plan_reply, exec_reply, pass_reply])\<close>
proof -
  have pre: "solve sample_loads ''q'' (1 - 1) [plan_reply, exec_reply, fail_reply] =
     (Inr \<lparr>answer = JStr [], status = ''failed'',
           reasoning_visible_to_user = failure_sentence,
           metadata = \<lparr>plan_md = Some ''1. add'',
             checks = [JObj [(''check_name'', JStr ''sum''), (''passed'', JBool False)]],
             retries = 0\<rparr>\<rparr>, [])"
    by code_simp
  have bad: "decoded sample_loads (Some ''not json'') = None"
    by code_simp
  have good: \<open>decoded sample_loads
       (Some ''{"proposed_answer": "13", "explanation": "8 + 5 = 13"}'') =
     Some (JObj [(''proposed_answer'', JStr ''13''), (''explanation'', JStr ''8 + 5 = 13'')])\<close>
    by code_simp
  have one: "(1::int) \<le> 3" "(0::int) \<le> 1" by simp_all
  have failed: "status \<lparr>answer = JStr [], status = ''failed'',
           reasoning_visible_to_user = failure_sentence,
           metadata = \<lparr>plan_md = Some ''1. add'',
             checks = [JObj [(''check_name'', JStr ''sum''), (''passed'', JBool False)]],
             retries = 0\<rparr>\<rparr> = ''failed''" by simp
  note inst = C5_parse_error_propagates [OF one(2) one(1) pre failed]
  have ex: "solve sample_loads ''q'' 3
     ([plan_reply, exec_reply, fail_reply] @
      [plan_reply, Responds (Some ''not json''), pass_reply, plan_reply, exec_reply, pass_reply])
     = (Inl JSONDecodeError, [pass_reply, plan_reply, exec_reply, pass_reply])"
    by (rule inst [where p = "Some ''1. add''" and e = "Some ''not json''"])
       (simp_all add: plan_reply_def bad)
  have ve: \<open>solve sample_loads ''q'' 3
     ([plan_reply, exec_reply, fail_reply] @
      [plan_reply, Responds (Some ''{"proposed_answer": "13", "explanation": "8 + 5 = 13"}''),
       Responds (Some ''not json''), plan_reply, exec_reply, pass_reply])
     = (Inl JSONDecodeError, [plan_reply, exec_reply, pass_reply])\<close>
    by (rule inst [where p = "Some ''1. add''"
          and e = \<open>Some ''{"proposed_answer": "13", "explanation": "8 + 5 = 13"}''\<close>])
       (auto simp add: plan_reply_def bad good intro: exI [of _ "Some ''not json''"])
  from pre bad good ex ve show ?thesis by simp
qed

end
